theory Spec2Isabelle
  imports Main
begin

section \<open>Data model (src/types.ts)\<close>

text \<open>
  JavaScript strings are modelled as HOL strings. A value of type \<open>string | null\<close> is a
  \<open>string option\<close>; \<open>truthy\<close> is the test JavaScript applies to such a value in a
  condition: \<open>null\<close> and the empty string are false.
\<close>

datatype EntryType = File | Folder | Image

record VibeEntry =
  id' :: string
  name :: string
  content :: string
  language :: string
  type :: EntryType

datatype Role = User | Model

record ChatMessage =
  role :: Role
  content :: string

datatype AIMode = ANALYZE | REFACTOR

fun AIMode_str :: "AIMode \<Rightarrow> string" where
  "AIMode_str ANALYZE = ''Analyze''"
| "AIMode_str REFACTOR = ''Refactor (Thinking Mode)''"

text \<open>
  What a rejected promise or a \<open>throw\<close> carries: an \<open>Error\<close> object built by this code
  with its message, the \<open>SyntaxError\<close> of \<open>JSON.parse\<close>, or whatever the remote SDK
  raised.
\<close>

datatype error = Error string | SyntaxError | ServiceFailure string

text \<open>The opaque session object of the SDK.\<close>

datatype Chat = Chat string

fun truthy :: "string option \<Rightarrow> bool" where
  "truthy None = False"
| "truthy (Some s) = (s \<noteq> [])"

section \<open>String helpers of the JavaScript runtime\<close>

text \<open>
  \<open>s.split(c)\<close> for a one-character separator: the pieces between the occurrences of
  \<open>c\<close>, never an empty array. \<open>pop()\<close> on the result is its last piece.
\<close>

fun js_split :: "char \<Rightarrow> string \<Rightarrow> string list" where
  "js_split c [] = [[]]"
| "js_split c (x # xs) =
     (if x = c then [] # js_split c xs
      else (case js_split c xs of
              [] \<Rightarrow> [[x]]
            | p # ps \<Rightarrow> (x # p) # ps))"

definition pop :: "string list \<Rightarrow> string" where
  "pop ps = last ps"

text \<open>\<open>a || b\<close> on strings: \<open>b\<close> when \<open>a\<close> is empty.\<close>

definition or_else :: "string \<Rightarrow> string \<Rightarrow> string" where
  "or_else a b = (if a \<noteq> [] then a else b)"

text \<open>
  The spec's wording "the substring after the last occurrence of \<open>c\<close>", written
  independently of \<open>js_split\<close>; on a string without \<open>c\<close> it is the whole string.
\<close>

definition after_last :: "char \<Rightarrow> string \<Rightarrow> string" where
  "after_last c s = rev (takeWhile (\<lambda>x. x \<noteq> c) (rev s))"

text \<open>Decimal rendering of a number in a template literal, for integers.\<close>

definition digit_char :: "nat \<Rightarrow> char" where
  "digit_char d = ''0123456789'' ! d"

fun digits :: "nat \<Rightarrow> string" where
  "digits n = (if n < 10 then [digit_char n] else digits (n div 10) @ [digit_char (n mod 10)])"

declare digits.simps [simp del]

definition String_of_int :: "int \<Rightarrow> string" where
  "String_of_int i = (if i < 0 then CHR ''-'' # digits (nat (- i)) else digits (nat i))"

text \<open>A \<open>string | null\<close> inside a template literal: \<open>null\<close> prints as the word null.\<close>

fun String_of_nullable :: "string option \<Rightarrow> string" where
  "String_of_nullable None = ''null''"
| "String_of_nullable (Some s) = s"

section \<open>Workspace state and handlers (src/App.tsx)\<close>

definition initialEntries :: "VibeEntry list" where
  "initialEntries =
    [ \<lparr> id' = ''welcome.js'',
        name = ''welcome.js'',
        VibeEntry.content = ''// Welcome to Vibe Code!\<newline>// Use the AI tools in the editor header to analyze or refactor your code.\<newline>// Ask the Vibe Bot anything in the chat panel on the right.\<newline>\<newline>function greet(name) {\<newline>  console.log(`Hello, ${name}! Let's start coding.`);\<newline>}\<newline>\<newline>greet('Developer');\<newline>'',
        language = ''javascript'',
        type = File \<rparr>,
      \<lparr> id' = ''styles.css'',
        name = ''styles.css'',
        VibeEntry.content = ''/* Give your web app some vibe! */\<newline>body {\<newline>  background-color: #1a202c;\<newline>  color: #cbd5e0;\<newline>  font-family: 'monospace', sans-serif;\<newline>}\<newline>\<newline>.container {\<newline>  border: 1px solid #4a5568;\<newline>  border-radius: 8px;\<newline>  padding: 1rem;\<newline>}\<newline>'',
        language = ''css'',
        type = File \<rparr>,
      \<lparr> id' = ''assets'',
        name = ''assets'',
        VibeEntry.content = '''',
        language = '''',
        type = Folder \<rparr> ]"

text \<open>
  The component's state: the six \<open>useState\<close> cells, and two logs that record what the
  handlers show to the user (\<open>alert\<close>) and write to the console (\<open>console.error\<close>).
\<close>

record App =
  entries :: "VibeEntry list"
  activeId :: "string option"
  chatHistory :: "ChatMessage list"
  isAiLoading :: bool
  chat :: "Chat option"
  isScaffoldModalOpen :: bool
  alerts :: "string list"
  console_error :: "(string \<times> error) list"

text \<open>The initial values of the \<open>useState\<close> calls, at the first render.\<close>

definition App_init :: App where
  "App_init =
    \<lparr> entries = initialEntries,
      activeId = Some ''welcome.js'',
      chatHistory = [],
      isAiLoading = False,
      chat = None,
      isScaffoldModalOpen = False,
      alerts = [],
      console_error = [] \<rparr>"

text \<open>The \<open>useEffect\<close> with no dependencies: runs once, after the first render.\<close>

definition on_mount :: "App \<Rightarrow> App" where
  "on_mount s =
     s\<lparr>chatHistory :=
         [\<lparr>role = Model,
           content = ''Hey! I'm Vibe Bot. Ask me anything about your code or general questions.''\<rparr>]\<rparr>"

definition startup :: App where
  "startup = on_mount App_init"

definition handleSelect :: "string \<Rightarrow> App \<Rightarrow> App" where
  "handleSelect i s = s\<lparr>activeId := Some i\<rparr>"

definition handleContentChange :: "string \<Rightarrow> App \<Rightarrow> App" where
  "handleContentChange newContent s =
     (if truthy (activeId s)
      then s\<lparr>entries :=
               map (\<lambda>e. if Some (id' e) = activeId s
                        then e\<lparr>VibeEntry.content := newContent\<rparr> else e)
                   (entries s)\<rparr>
      else s)"

text \<open>
  \<open>handleNewFile\<close> and \<open>handleNewFolder\<close> take what \<open>prompt\<close> returned: \<open>None\<close> when
  the user cancelled.
\<close>

definition handleNewFile :: "string option \<Rightarrow> App \<Rightarrow> App" where
  "handleNewFile fileName s =
     (case fileName of
        None \<Rightarrow> s
      | Some fn \<Rightarrow>
          if truthy fileName \<and> \<not> list_ex (\<lambda>e. name e = fn) (entries s)
          then
            let newFile =
                  \<lparr> id' = fn,
                    name = fn,
                    VibeEntry.content = ''// New file: '' @ fn,
                    language = or_else (pop (js_split CHR ''.'' fn)) ''text'',
                    type = File \<rparr>
            in s\<lparr>entries := entries s @ [newFile], activeId := Some (id' newFile)\<rparr>
          else if truthy fileName
          then s\<lparr>alerts := alerts s @ [''A file with that name already exists.'']\<rparr>
          else s)"

definition handleNewFolder :: "string option \<Rightarrow> App \<Rightarrow> App" where
  "handleNewFolder folderPath s =
     (case folderPath of
        None \<Rightarrow> s
      | Some fp \<Rightarrow>
          if truthy folderPath \<and> \<not> list_ex (\<lambda>e. id' e = fp) (entries s)
          then
            let newFolder =
                  \<lparr> id' = fp,
                    name = or_else (pop (js_split CHR ''/'' fp)) fp,
                    VibeEntry.content = '''',
                    language = '''',
                    type = Folder \<rparr>
            in s\<lparr>entries := entries s @ [newFolder], activeId := Some (id' newFolder)\<rparr>
          else if truthy folderPath
          then s\<lparr>alerts := alerts s @ [''A folder with that path already exists.'']\<rparr>
          else s)"

text \<open>\<open>handleFileUpload\<close> takes the answer of \<open>window.confirm\<close>, read only when asked.\<close>

definition handleFileUpload :: "bool \<Rightarrow> VibeEntry \<Rightarrow> App \<Rightarrow> App" where
  "handleFileUpload confirm file s =
     (if \<not> list_ex (\<lambda>e. name e = name file) (entries s)
      then s\<lparr>entries := entries s @ [file], activeId := Some (id' file)\<rparr>
      else if confirm
      then s\<lparr>entries := map (\<lambda>e. if name e = name file then file else e) (entries s),
             activeId := Some (id' file)\<rparr>
      else s)"

subsection \<open>Asynchronous handlers\<close>

text \<open>
  The four functions \<open>App.tsx\<close> imports from the service module, under the types it
  imports them with. Field \<open>await_f\<close> gives how \<open>await f(...)\<close> settles for the given
  arguments: \<open>Inl\<close> is a rejection, \<open>Inr\<close> the resolved value.
\<close>

record Gateway =
  await_runChat :: "Chat option \<Rightarrow> string \<Rightarrow> error + (Chat \<times> string)"
  await_analyzeCode :: "string \<Rightarrow> error + string"
  await_refactorCodeWithThinking :: "string \<Rightarrow> error + string"
  await_scaffoldProject :: "string \<Rightarrow> error + VibeEntry list"

text \<open>
  An asynchronous handler runs in two parts: the statements before the \<open>await\<close>, and
  the rest once the promise has settled, on the state as it is then. The values a
  handler's closure captured at the call (\<open>chat\<close>, \<open>activeId\<close>) are arguments of the
  second part. The handler under its source name is the two parts run back to back.
\<close>

definition handleSendMessage_begin :: "string \<Rightarrow> App \<Rightarrow> App" where
  "handleSendMessage_begin message s =
     (let userMessage = \<lparr>role = User, content = message\<rparr>;
          s1 = s\<lparr>chatHistory := chatHistory s @ [userMessage]\<rparr>
      in s1\<lparr>isAiLoading := True\<rparr>)"

definition handleSendMessage_settle ::
    "Chat option \<Rightarrow> error + (Chat \<times> string) \<Rightarrow> App \<Rightarrow> App" where
  "handleSendMessage_settle chat0 settled s =
     (let s1 =
        (case settled of
           Inr (chatInstance, response) \<Rightarrow>
             let s2 = (if chat0 = None then s\<lparr>chat := Some chatInstance\<rparr> else s);
                 modelMessage = \<lparr>role = Model, content = response\<rparr>
             in s2\<lparr>chatHistory := chatHistory s2 @ [modelMessage]\<rparr>
         | Inl err \<Rightarrow>
             let s2 = s\<lparr>console_error := console_error s @ [(''Chat error:'', err)]\<rparr>;
                 errorMessage =
                   \<lparr>role = Model,
                    content = ''Sorry, I ran into an issue. Please check the console for details.''\<rparr>
             in s2\<lparr>chatHistory := chatHistory s2 @ [errorMessage]\<rparr>)
      in s1\<lparr>isAiLoading := False\<rparr>)"

text \<open>
  The result of a handler call as its caller sees it: the promise of an \<open>async\<close>
  function rejects when an exception leaves the body, and resolves otherwise.
\<close>

datatype 'a settled = Rejected error | Resolved (resolved: 'a)

definition handleSendMessage :: "Gateway \<Rightarrow> string \<Rightarrow> App \<Rightarrow> App settled" where
  "handleSendMessage gw message s =
     Resolved (handleSendMessage_settle (chat s) (await_runChat gw (chat s) message)
                 (handleSendMessage_begin message s))"

definition ai_response_id :: "int \<Rightarrow> string" where
  "ai_response_id now = ''ai-response-'' @ String_of_int now @ ''.md''"

definition handleAiAction_begin :: "App \<Rightarrow> App" where
  "handleAiAction_begin s = s\<lparr>isAiLoading := True\<rparr>"

text \<open>
  \<open>now\<close> is what \<open>Date.now()\<close> returns when the entry is built. The \<open>else return\<close>
  of the source is for a mode outside the enum; \<open>AIMode\<close> has none.
\<close>

definition handleAiAction_settle ::
    "string option \<Rightarrow> AIMode \<Rightarrow> error + string \<Rightarrow> int \<Rightarrow> App \<Rightarrow> App" where
  "handleAiAction_settle activeId0 mode settled now s =
     (let s1 =
        (case settled of
           Inr result \<Rightarrow>
             let aiResponseFile =
                   \<lparr> id' = ai_response_id now,
                     name = AIMode_str mode @ ''-response.md'',
                     VibeEntry.content =
                       ''## AI '' @ AIMode_str mode @ '' Result for '' @ String_of_nullable activeId0
                         @ ''\<newline>\<newline>---\<newline>\<newline>'' @ result,
                     language = ''markdown'',
                     type = File \<rparr>
             in s\<lparr>entries := entries s @ [aiResponseFile], activeId := Some (id' aiResponseFile)\<rparr>
         | Inl err \<Rightarrow>
             s\<lparr>console_error :=
                  console_error s @ [(''AI Action Error ('' @ AIMode_str mode @ ''):'', err)],
               alerts :=
                  alerts s @ [''An error occurred during AI '' @ AIMode_str mode
                                @ ''. Please check the console.'']\<rparr>)
      in s1\<lparr>isAiLoading := False\<rparr>)"

text \<open>The awaited call of \<open>handleAiAction\<close>, chosen by the mode.\<close>

definition ai_request :: "Gateway \<Rightarrow> AIMode \<Rightarrow> string \<Rightarrow> error + string" where
  "ai_request gw mode code =
     (if mode = ANALYZE then await_analyzeCode gw code
      else await_refactorCodeWithThinking gw code)"

definition handleAiAction :: "Gateway \<Rightarrow> AIMode \<Rightarrow> string \<Rightarrow> int \<Rightarrow> App \<Rightarrow> App settled" where
  "handleAiAction gw mode code now s =
     Resolved (handleAiAction_settle (activeId s) mode (ai_request gw mode code) now
                 (handleAiAction_begin s))"

definition handleScaffold_begin :: "App \<Rightarrow> App" where
  "handleScaffold_begin s = s\<lparr>isAiLoading := True\<rparr>"

definition handleScaffold_settle :: "error + VibeEntry list \<Rightarrow> App \<Rightarrow> App" where
  "handleScaffold_settle settled s =
     (let s1 =
        (case settled of
           Inr newEntries \<Rightarrow>
             let s2 = s\<lparr>entries := entries s @ newEntries\<rparr>;
                 s3 = s2\<lparr>isScaffoldModalOpen := False\<rparr>
             in (case newEntries of
                   [] \<Rightarrow> s3
                 | e # _ \<Rightarrow> s3\<lparr>activeId := Some (id' e)\<rparr>)
         | Inl err \<Rightarrow>
             s\<lparr>console_error := console_error s @ [(''Scaffold error:'', err)],
               alerts :=
                  alerts s @ [''An error occurred during scaffolding. Please check the console.'']\<rparr>)
      in s1\<lparr>isAiLoading := False\<rparr>)"

definition handleScaffold :: "Gateway \<Rightarrow> string \<Rightarrow> App \<Rightarrow> App settled" where
  "handleScaffold gw prompt s =
     Resolved (handleScaffold_settle (await_scaffoldProject gw prompt) (handleScaffold_begin s))"

section \<open>Service module (src/services/geminiService.ts)\<close>

text \<open>
  The statements at the top of the module run when it is first imported.
  \<open>API_KEY\<close> is \<open>process.env.API_KEY\<close>: \<open>None\<close> when the variable is not set. The
  module's functions exist only once these statements have run without a throw; the
  result then holds the client they all use.
\<close>

record GoogleGenAI =
  apiKey :: string

definition geminiService_init :: "string option \<Rightarrow> error + GoogleGenAI" where
  "geminiService_init API_KEY =
     (case API_KEY of
        None \<Rightarrow> Inl (Error ''API_KEY environment variable not set'')
      | Some k \<Rightarrow>
          if \<not> truthy API_KEY then Inl (Error ''API_KEY environment variable not set'')
          else Inr \<lparr>apiKey = k\<rparr>)"

subsection \<open>\<open>JSON.parse\<close>\<close>

text \<open>
  \<open>scaffoldProject\<close> hands the matched text to \<open>JSON.parse\<close> of the JavaScript
  runtime. The parser below follows the JSON grammar. A parsed value keeps numbers and
  strings as they are written (a number as its lexeme, a string as the characters
  between its quotes, escapes not yet decoded) and the members of an object in the order
  of the source, duplicates included.
\<close>

datatype json =
    JNull
  | JBool bool
  | JNumber string
  | JString string
  | JArray "json list"
  | JObject "(string \<times> json) list"

definition is_ws :: "char \<Rightarrow> bool" where
  "is_ws c = (c = CHR '' '' \<or> c = CHR 0x09 \<or> c = CHR 0x0A \<or> c = CHR 0x0D)"

definition skip_ws :: "string \<Rightarrow> string" where
  "skip_ws s = dropWhile is_ws s"

definition is_digit :: "char \<Rightarrow> bool" where
  "is_digit c = (c \<in> set ''0123456789'')"

definition is_hex :: "char \<Rightarrow> bool" where
  "is_hex c = (c \<in> set ''0123456789abcdefABCDEF'')"

definition quote :: char where "quote = CHR 0x22"
definition backslash :: char where "backslash = CHR 0x5C"

text \<open>
  The body of a string literal, after the opening quote: up to the closing quote, with
  the rest of the input. Control characters are not allowed, and a backslash must start
  one of the escapes of the grammar.
\<close>

fun string_body :: "string \<Rightarrow> (string \<times> string) option" where
  "string_body [] = None"
| "string_body (c # cs) =
     (if c = quote then Some ([], cs)
      else if c = backslash then
        (case cs of
           [] \<Rightarrow> None
         | e # r \<Rightarrow>
             if e \<in> set [quote, backslash, CHR ''/'', CHR ''b'', CHR ''f'', CHR ''n'', CHR ''r'', CHR ''t'']
             then map_option (\<lambda>(b, rest). (c # e # b, rest)) (string_body r)
             else if e = CHR ''u'' \<and> 4 \<le> length r \<and> list_all is_hex (take 4 r)
             then map_option (\<lambda>(b, rest). (c # e # take 4 r @ b, rest)) (string_body (drop 4 r))
             else None)
      else if (of_char c :: nat) < 32 then None
      else map_option (\<lambda>(b, rest). (c # b, rest)) (string_body cs))"

text \<open>
  The lexeme of a number at the front of the input, and the rest: an optional minus
  sign, the integer part (a single 0, or a digit from 1 to 9 and more digits), an
  optional fraction and an optional exponent, each with at least one digit.
\<close>

definition opt_minus :: "string \<Rightarrow> string \<times> string" where
  "opt_minus s =
     (case s of
        [] \<Rightarrow> ([], s)
      | c # r \<Rightarrow> if c = CHR ''-'' then ([c], r) else ([], s))"

definition int_part :: "string \<Rightarrow> (string \<times> string) option" where
  "int_part s =
     (case s of
        [] \<Rightarrow> None
      | d # r \<Rightarrow>
          if d = CHR ''0'' then Some ([d], r)
          else if is_digit d then Some (takeWhile is_digit s, dropWhile is_digit s)
          else None)"

definition frac_part :: "string \<Rightarrow> (string \<times> string) option" where
  "frac_part s =
     (case s of
        [] \<Rightarrow> Some ([], s)
      | p # r \<Rightarrow>
          if p = CHR ''.''
          then (if takeWhile is_digit r = [] then None
                else Some (p # takeWhile is_digit r, dropWhile is_digit r))
          else Some ([], s))"

definition opt_sign :: "string \<Rightarrow> string \<times> string" where
  "opt_sign s =
     (case s of
        [] \<Rightarrow> ([], s)
      | g # r \<Rightarrow> if g = CHR ''+'' \<or> g = CHR ''-'' then ([g], r) else ([], s))"

definition exp_part :: "string \<Rightarrow> (string \<times> string) option" where
  "exp_part s =
     (case s of
        [] \<Rightarrow> Some ([], s)
      | e # r \<Rightarrow>
          if e = CHR ''e'' \<or> e = CHR ''E''
          then (case opt_sign r of
                  (sg, r') \<Rightarrow>
                    if takeWhile is_digit r' = [] then None
                    else Some (e # sg @ takeWhile is_digit r', dropWhile is_digit r'))
          else Some ([], s))"

definition number_lexeme :: "string \<Rightarrow> (string \<times> string) option" where
  "number_lexeme s =
     (case opt_minus s of
        (sg, r0) \<Rightarrow>
          (case int_part r0 of
             None \<Rightarrow> None
           | Some (ip, r1) \<Rightarrow>
               (case frac_part r1 of
                  None \<Rightarrow> None
                | Some (fp, r2) \<Rightarrow>
                    (case exp_part r2 of
                       None \<Rightarrow> None
                     | Some (ep, r3) \<Rightarrow> Some (sg @ ip @ fp @ ep, r3)))))"

definition literal :: "string \<Rightarrow> json \<Rightarrow> string \<Rightarrow> (json \<times> string) option" where
  "literal word v s =
     (if take (length word) s = word then Some (v, drop (length word) s) else None)"

text \<open>
  Recursive descent, by structural recursion on a bound of the nesting: the three
  functions return \<open>None\<close> where the input is not JSON, and also when the bound is used
  up. \<open>JSON_parse\<close> starts with twice the length of the input plus one, which is never
  used up (lemma \<open>parse_value_fuel_enough\<close> below). \<open>parse_elements\<close> reads the elements of
  an array after its opening bracket, \<open>parse_members\<close> the members of an object after
  its opening brace.
\<close>

fun parse_value :: "nat \<Rightarrow> string \<Rightarrow> (json \<times> string) option"
and parse_elements :: "nat \<Rightarrow> string \<Rightarrow> (json list \<times> string) option"
and parse_members :: "nat \<Rightarrow> string \<Rightarrow> ((string \<times> json) list \<times> string) option" where
  "parse_value 0 s = None"
| "parse_value (Suc n) s =
     (case skip_ws s of
        [] \<Rightarrow> None
      | c # cs \<Rightarrow>
          if c = CHR ''['' then
            (case skip_ws cs of
               [] \<Rightarrow> None
             | d # r \<Rightarrow> if d = CHR '']'' then Some (JArray [], r)
                        else map_option (\<lambda>(vs, rest). (JArray vs, rest)) (parse_elements n cs))
          else if c = CHR ''{'' then
            (case skip_ws cs of
               [] \<Rightarrow> None
             | d # r \<Rightarrow> if d = CHR ''}'' then Some (JObject [], r)
                        else map_option (\<lambda>(ms, rest). (JObject ms, rest)) (parse_members n cs))
          else if c = quote then map_option (\<lambda>(b, rest). (JString b, rest)) (string_body cs)
          else if c = CHR ''-'' \<or> is_digit c
          then map_option (\<lambda>(l, rest). (JNumber l, rest)) (number_lexeme (c # cs))
          else if c = CHR ''t'' then literal ''true'' (JBool True) (c # cs)
          else if c = CHR ''f'' then literal ''false'' (JBool False) (c # cs)
          else if c = CHR ''n'' then literal ''null'' JNull (c # cs)
          else None)"
| "parse_elements 0 s = None"
| "parse_elements (Suc n) s =
     (case parse_value n s of
        None \<Rightarrow> None
      | Some (v, r) \<Rightarrow>
          (case skip_ws r of
             [] \<Rightarrow> None
           | c # r' \<Rightarrow>
               if c = CHR '','' then map_option (\<lambda>(vs, rest). (v # vs, rest)) (parse_elements n r')
               else if c = CHR '']'' then Some ([v], r')
               else None))"
| "parse_members 0 s = None"
| "parse_members (Suc n) s =
     (case skip_ws s of
        [] \<Rightarrow> None
      | q # cs \<Rightarrow>
          if q \<noteq> quote then None
          else
            (case string_body cs of
               None \<Rightarrow> None
             | Some (k, r) \<Rightarrow>
                 (case skip_ws r of
                    [] \<Rightarrow> None
                  | c # r1 \<Rightarrow>
                      if c \<noteq> CHR '':'' then None
                      else
                        (case parse_value n r1 of
                           None \<Rightarrow> None
                         | Some (v, r2) \<Rightarrow>
                             (case skip_ws r2 of
                                [] \<Rightarrow> None
                              | d # r3 \<Rightarrow>
                                  if d = CHR '','' then
                                    map_option (\<lambda>(ms, rest). ((k, v) # ms, rest)) (parse_members n r3)
                                  else if d = CHR ''}'' then Some ([(k, v)], r3)
                                  else None)))))"

text \<open>
  \<open>JSON.parse(text)\<close>: one value, with nothing but white space after it. \<open>None\<close> is
  the \<open>SyntaxError\<close> it throws.
\<close>

definition JSON_parse :: "string \<Rightarrow> json option" where
  "JSON_parse text =
     (case parse_value (2 * length text + 1) text of
        None \<Rightarrow> None
      | Some (v, rest) \<Rightarrow> if skip_ws rest = [] then Some v else None)"

subsection \<open>\<open>scaffoldProject\<close>\<close>

text \<open>
  \<open>text.match\<close> with the regular expression of the source: an opening bracket, any
  characters (line breaks included, as many as possible), a closing bracket. The
  leftmost match starts at the first opening bracket, and the greedy star runs to the
  last closing bracket after it; there is no match when there is no opening bracket or
  no closing bracket after the first one. The result is \<open>jsonMatch[0]\<close>.
\<close>

definition match_array :: "string \<Rightarrow> string option" where
  "match_array text =
     (case dropWhile (\<lambda>c. c \<noteq> CHR ''['') text of
        [] \<Rightarrow> None
      | b # rest \<Rightarrow>
          if CHR '']'' \<in> set rest
          then Some (b # rev (dropWhile (\<lambda>c. c \<noteq> CHR '']'') (rev rest)))
          else None)"


text \<open>The body of the \<open>try\<close> block, on \<open>response.text\<close>.\<close>

definition parse_response :: "string \<Rightarrow> error + json" where
  "parse_response text =
     (case match_array text of
        None \<Rightarrow> Inl (Error ''No JSON array found in response'')
      | Some jsonMatch \<Rightarrow>
          (case JSON_parse jsonMatch of
             None \<Rightarrow> Inl SyntaxError
           | Some parsed \<Rightarrow> Inr parsed))"

text \<open>
  \<open>generateContent\<close> gives how the awaited request to the model settles for a user
  prompt: a rejection (which leaves \<open>scaffoldProject\<close> as it is, the call being outside
  the \<open>try\<close>) or the text of the response. The \<open>catch\<close> turns every error of the
  \<open>try\<close> block into one \<open>Error\<close> with a fixed message. The parsed value is returned
  under the type \<open>VibeEntry[]\<close> without any check, so the model returns the value.
\<close>

definition scaffoldProject :: "(string \<Rightarrow> error + string) \<Rightarrow> string \<Rightarrow> error + json" where
  "scaffoldProject generateContent prompt =
     (case generateContent prompt of
        Inl e \<Rightarrow> Inl e
      | Inr text \<Rightarrow>
          (case parse_response text of
             Inl err \<Rightarrow> Inl (Error ''Failed to generate project structure. Please try again.'')
           | Inr parsed \<Rightarrow> Inr parsed))"

subsection \<open>The entry schema of the specification\<close>

text \<open>
  Section 6 of the specification gives the shape a scaffold response must have: an array
  of objects with string fields id, name, content and language and a type that is
  "file" or "folder". \<open>schema_entries\<close> reads a parsed value against that schema and
  gives the entries it denotes, or \<open>None\<close> when it does not conform. The source has no
  such check; the definition follows the specification's words.
\<close>

text \<open>
  The value a string literal denotes. Characters are bytes here: an escape for a code
  unit above 255 has no value in this model.
\<close>

definition hex_digit :: "char \<Rightarrow> nat" where
  "hex_digit c =
     (if is_digit c then of_char c - 48
      else if c \<in> set ''abcdef'' then of_char c - 87
      else of_char c - 55)"

definition hex4 :: "string \<Rightarrow> nat option" where
  "hex4 s =
     (if length s = 4 \<and> list_all is_hex s
      then Some (foldl (\<lambda>acc c. 16 * acc + hex_digit c) 0 s)
      else None)"

definition escape_char :: "char \<Rightarrow> char option" where
  "escape_char e =
     (if e = quote \<or> e = backslash \<or> e = CHR ''/'' then Some e
      else if e = CHR ''b'' then Some (CHR 0x08)
      else if e = CHR ''f'' then Some (CHR 0x0C)
      else if e = CHR ''n'' then Some (CHR 0x0A)
      else if e = CHR ''r'' then Some (CHR 0x0D)
      else if e = CHR ''t'' then Some (CHR 0x09)
      else None)"

fun unescape :: "string \<Rightarrow> string option" where
  "unescape [] = Some []"
| "unescape [c] = (if c = backslash then None else Some [c])"
| "unescape (c # e # r) =
     (if c \<noteq> backslash then map_option ((#) c) (unescape (e # r))
      else if e = CHR ''u'' then
        (case hex4 (take 4 r) of
           None \<Rightarrow> None
         | Some n \<Rightarrow> if n < 256 then map_option ((#) (char_of n)) (unescape (drop 4 r))
                     else None)
      else
        (case escape_char e of
           None \<Rightarrow> None
         | Some d \<Rightarrow> map_option ((#) d) (unescape r)))"

text \<open>
  \<open>obj[k]\<close> on a parsed object: when a key occurs more than once, the last
  occurrence is the property's value.
\<close>

definition property :: "string \<Rightarrow> (string \<times> json) list \<Rightarrow> json option" where
  "property k ms =
     (case filter (\<lambda>(k', v). unescape k' = Some k) ms of
        [] \<Rightarrow> None
      | m # ms' \<Rightarrow> Some (snd (last (m # ms'))))"

definition string_property :: "string \<Rightarrow> (string \<times> json) list \<Rightarrow> string option" where
  "string_property k ms =
     (case property k ms of
        Some (JString raw) \<Rightarrow> unescape raw
      | _ \<Rightarrow> None)"

definition schema_entry :: "json \<Rightarrow> VibeEntry option" where
  "schema_entry j =
     (case j of
        JObject ms \<Rightarrow>
          (case (string_property ''id'' ms, string_property ''name'' ms,
                 string_property ''content'' ms, string_property ''language'' ms,
                 string_property ''type'' ms) of
             (Some i, Some n, Some c, Some l, Some t) \<Rightarrow>
               if t = ''file''
               then Some \<lparr>id' = i, name = n, VibeEntry.content = c, language = l, type = File\<rparr>
               else if t = ''folder''
               then Some \<lparr>id' = i, name = n, VibeEntry.content = c, language = l, type = Folder\<rparr>
               else None
           | _ \<Rightarrow> None)
      | _ \<Rightarrow> None)"

definition schema_entries :: "json \<Rightarrow> VibeEntry list option" where
  "schema_entries j =
     (case j of
        JArray vs \<Rightarrow>
          if list_all (\<lambda>v. schema_entry v \<noteq> None) vs
          then Some (map (\<lambda>v. the (schema_entry v)) vs)
          else None
      | _ \<Rightarrow> None)"

section \<open>Example inputs\<close>

text \<open>
  Concrete inputs for the closed theorems below: a gateway whose every call resolves
  with the same reply, one whose every call rejects with the same error, a workspace
  with given entries and active id, a model that answers every prompt with the same
  response, and two responses.
\<close>

definition Gateway_ok :: "string \<Rightarrow> Gateway" where
  "Gateway_ok reply =
     \<lparr> await_runChat = (\<lambda>existingChat message.
                     Inr (case existingChat of None \<Rightarrow> Chat ''session'' | Some c \<Rightarrow> c, reply)),
       await_analyzeCode = (\<lambda>code. Inr reply),
       await_refactorCodeWithThinking = (\<lambda>code. Inr reply),
       await_scaffoldProject = (\<lambda>prompt. Inr []) \<rparr>"

definition Gateway_down :: "error \<Rightarrow> Gateway" where
  "Gateway_down err =
     \<lparr> await_runChat = (\<lambda>existingChat message. Inl err),
       await_analyzeCode = (\<lambda>code. Inl err),
       await_refactorCodeWithThinking = (\<lambda>code. Inl err),
       await_scaffoldProject = (\<lambda>prompt. Inl err) \<rparr>"

definition workspace :: "VibeEntry list \<Rightarrow> string option \<Rightarrow> App" where
  "workspace es a = App_init\<lparr>entries := es, activeId := a\<rparr>"

definition replies :: "string \<Rightarrow> string \<Rightarrow> error + string" where
  "replies response prompt = Inr response"


definition unvalidated_response :: string where
  \<open>unvalidated_response = ''[1, "two", null, {"id": 7}]''\<close>

section \<open>Facts about the string helpers\<close>

lemma js_split_not_Nil: "js_split c s \<noteq> []"
  by (induction s) (auto split: list.splits)

lemma js_split_no_sep: "c \<notin> set s \<Longrightarrow> js_split c s = [s]"
  by (induction s) auto

lemma js_split_sep: "c \<in> set s \<Longrightarrow> tl (js_split c s) \<noteq> []"
  by (induction s) (auto simp: js_split_not_Nil js_split_no_sep split: list.splits)

lemma after_last_no_sep: "c \<notin> set s \<Longrightarrow> after_last c s = s"
proof -
  assume "c \<notin> set s"
  then have "takeWhile (\<lambda>x. x \<noteq> c) (rev s) = rev s"
    by (auto simp: takeWhile_eq_all_conv)
  then show ?thesis by (simp only: after_last_def rev_rev_ident)
qed

lemma after_last_Cons:
  "after_last c (x # xs) =
     (if c \<in> set xs then after_last c xs else if x = c then xs else x # xs)"
  using after_last_no_sep[of c xs]
  by (auto simp: after_last_def takeWhile_append)

lemma pop_js_split: "pop (js_split c s) = after_last c s"
proof (induction s)
  case Nil
  show ?case by (simp add: pop_def after_last_def)
next
  case (Cons x xs)
  show ?case
  proof (cases "c \<in> set xs")
    case True
    obtain p ps where ps: "js_split c xs = p # ps"
      using js_split_not_Nil[of c xs] by (cases "js_split c xs") auto
    with js_split_sep[OF True] have "ps \<noteq> []" by simp
    with ps Cons True show ?thesis
      by (simp add: pop_def after_last_Cons)
  next
    case False
    then show ?thesis
      by (simp add: pop_def after_last_Cons js_split_no_sep)
  qed
qed

lemma of_char_digit_char: "d < 10 \<Longrightarrow> of_char (digit_char d) = (48 + d :: nat)"
proof -
  assume "d < 10"
  then have "d = 0 \<or> d = 1 \<or> d = 2 \<or> d = 3 \<or> d = 4 \<or> d = 5 \<or> d = 6 \<or> d = 7
             \<or> d = 8 \<or> d = 9" by arith
  then show ?thesis by (elim disjE) (simp_all add: digit_char_def)
qed

lemma digit_char_inj: "a < 10 \<Longrightarrow> b < 10 \<Longrightarrow> digit_char a = digit_char b \<Longrightarrow> a = b"
proof -
  assume a: "a < 10" and b: "b < 10" and e: "digit_char a = digit_char b"
  from e have "(of_char (digit_char a) :: nat) = of_char (digit_char b)" by simp
  with a b show ?thesis by (simp add: of_char_digit_char)
qed

lemma digit_char_not_minus: "d < 10 \<Longrightarrow> digit_char d \<noteq> CHR ''-''"
proof
  assume d: "d < 10" and e: "digit_char d = CHR ''-''"
  from e have "(of_char (digit_char d) :: nat) = of_char CHR ''-''" by simp
  with d show False by (simp only: of_char_digit_char) simp
qed

lemma digits_not_Nil: "digits n \<noteq> []"
  by (subst digits.simps) simp

lemma digits_no_minus: "CHR ''-'' \<notin> set (digits n)"
proof (induction n rule: digits.induct)
  case (1 n)
  show ?case
  proof (cases "n < 10")
    case True
    then show ?thesis using digit_char_not_minus[of n] by (subst digits.simps) auto
  next
    case False
    have "n mod 10 < 10" by simp
    then have "digit_char (n mod 10) \<noteq> CHR ''-''" by (rule digit_char_not_minus)
    with False 1 show ?thesis by (subst digits.simps) auto
  qed
qed

lemma digits_inj: "digits m = digits n \<Longrightarrow> m = n"
proof (induction m arbitrary: n rule: digits.induct)
  case (1 m)
  show ?case
  proof (cases "m < 10")
    case m: True
    show ?thesis
    proof (cases "n < 10")
      case True
      with m "1.prems" show ?thesis
        by (simp add: digits.simps[of m] digits.simps[of n] digit_char_inj)
    next
      case False
      with m "1.prems" digits_not_Nil[of "n div 10"] show ?thesis
        by (simp add: digits.simps[of m] digits.simps[of n])
    qed
  next
    case m: False
    show ?thesis
    proof (cases "n < 10")
      case True
      with m "1.prems" digits_not_Nil[of "m div 10"] show ?thesis
        by (simp add: digits.simps[of m] digits.simps[of n])
    next
      case False
      with m "1.prems" have e1: "digits (m div 10) = digits (n div 10)"
        and e2: "digit_char (m mod 10) = digit_char (n mod 10)"
        by (simp_all add: digits.simps[of m] digits.simps[of n])
      from "1.IH"[OF m e1] have d: "m div 10 = n div 10" .
      have "m mod 10 = n mod 10" using e2 by (intro digit_char_inj) simp_all
      with d show ?thesis by (metis div_mult_mod_eq)
    qed
  qed
qed

lemma String_of_int_inj: "String_of_int i = String_of_int j \<Longrightarrow> i = j"
proof -
  assume e: "String_of_int i = String_of_int j"
  have hd_no: "\<And>n. hd (digits n) \<noteq> CHR ''-''"
    using digits_no_minus digits_not_Nil by (metis hd_in_set)
  show ?thesis
  proof (cases "i < 0")
    case i: True
    show ?thesis
    proof (cases "j < 0")
      case True
      with i e have "digits (nat (- i)) = digits (nat (- j))" by (simp add: String_of_int_def)
      then have "nat (- i) = nat (- j)" by (rule digits_inj)
      with i True show ?thesis by simp
    next
      case False
      with i e have "CHR ''-'' # digits (nat (- i)) = digits (nat j)"
        by (simp add: String_of_int_def)
      then have "hd (digits (nat j)) = CHR ''-''" by (metis list.sel(1))
      with hd_no show ?thesis by blast
    qed
  next
    case i: False
    show ?thesis
    proof (cases "j < 0")
      case True
      with i e have "digits (nat i) = CHR ''-'' # digits (nat (- j))"
        by (simp add: String_of_int_def)
      then have "hd (digits (nat i)) = CHR ''-''" by (metis list.sel(1))
      with hd_no show ?thesis by blast
    next
      case False
      with i e have "digits (nat i) = digits (nat j)" by (simp add: String_of_int_def)
      then have "nat i = nat j" by (rule digits_inj)
      with i False show ?thesis by simp
    qed
  qed
qed

lemma ai_response_id_inj: "ai_response_id a = ai_response_id b \<Longrightarrow> a = b"
  by (simp add: ai_response_id_def String_of_int_inj)

lemma list_ex_name: "list_ex (\<lambda>e. name e = fn) es \<longleftrightarrow> fn \<in> name ` set es"
  by (auto simp: list_ex_iff)

section \<open>Facts about the parser\<close>

lemma length_skip_ws: "length (skip_ws s) \<le> length s"
  by (simp add: skip_ws_def length_dropWhile_le)

lemma skip_ws_Cons_length: "skip_ws s = c # cs \<Longrightarrow> length cs < length s"
  using length_skip_ws[of s] by simp

lemma map_option_pair_Some:
  "map_option (\<lambda>(b, rest). (f b, rest)) m = Some (x, r) \<Longrightarrow> \<exists>b. m = Some (b, r) \<and> x = f b"
  by (cases m) auto

lemma string_body_rest: "string_body cs = Some (b, r) \<Longrightarrow> length r \<le> length cs"
proof (induction cs arbitrary: b r rule: length_induct)
  case (1 cs)
  note IH = "1.IH"[rule_format] and eq = "1.prems"
  show ?case
  proof (cases cs)
    case Nil
    with eq show ?thesis by simp
  next
    case (Cons c t)
    show ?thesis
    proof (cases "c = quote")
      case True
      with eq Cons show ?thesis by simp
    next
      case nq: False
      show ?thesis
      proof (cases "c = backslash")
        case bs: True
        show ?thesis
        proof (cases t)
          case Nil
          with eq Cons nq bs show ?thesis by simp
        next
          case t: (Cons e u)
          show ?thesis
          proof (cases "e \<in> set [quote, backslash, CHR ''/'', CHR ''b'', CHR ''f'', CHR ''n'', CHR ''r'', CHR ''t'']")
            case True
            with eq Cons t nq bs
            have "map_option (\<lambda>(b, rest). (c # e # b, rest)) (string_body u) = Some (b, r)"
              by (simp del: set_simps)
            then obtain b' where "string_body u = Some (b', r)"
              using map_option_pair_Some by fastforce
            from IH[OF _ this] Cons t show ?thesis by simp
          next
            case ne: False
            show ?thesis
            proof (cases "e = CHR ''u'' \<and> 4 \<le> length u \<and> list_all is_hex (take 4 u)")
              case True
              with eq Cons t nq bs ne
              have "map_option (\<lambda>(b, rest). (c # e # take 4 u @ b, rest)) (string_body (drop 4 u))
                      = Some (b, r)"
                by (simp del: set_simps)
              then obtain b' where "string_body (drop 4 u) = Some (b', r)"
                using map_option_pair_Some by fastforce
              moreover have "length (drop 4 u) < length cs" using Cons t by simp
              ultimately have "length r \<le> length (drop 4 u)" using IH by blast
              with Cons t show ?thesis by simp
            next
              case False
              with eq Cons t nq bs ne show ?thesis by (auto simp del: set_simps)
            qed
          qed
        qed
      next
        case nb: False
        show ?thesis
        proof (cases "(of_char c :: nat) < 32")
          case True
          with eq Cons nq nb show ?thesis by simp
        next
          case False
          with eq Cons nq nb
          have "map_option (\<lambda>(b, rest). (c # b, rest)) (string_body t) = Some (b, r)"
            by simp
          then obtain b' where "string_body t = Some (b', r)"
            using map_option_pair_Some by fastforce
          from IH[OF _ this] Cons show ?thesis by simp
        qed
      qed
    qed
  qed
qed

lemma opt_minus_rest: "opt_minus s = (l, r) \<Longrightarrow> length r \<le> length s"
  by (auto simp: opt_minus_def split: list.splits if_splits)

lemma opt_sign_rest: "opt_sign s = (l, r) \<Longrightarrow> length r \<le> length s"
  by (auto simp: opt_sign_def split: list.splits if_splits)

lemma int_part_rest: "int_part s = Some (l, r) \<Longrightarrow> length r \<le> length s"
  using length_dropWhile_le[of is_digit s]
  by (auto simp: int_part_def split: list.splits if_splits)

lemma frac_part_rest: "frac_part s = Some (l, r) \<Longrightarrow> length r \<le> length s"
  using length_dropWhile_le[of is_digit "tl s"]
  by (auto simp: frac_part_def split: list.splits if_splits)

lemma exp_part_rest: "exp_part s = Some (l, r) \<Longrightarrow> length r \<le> length s"
proof (cases s)
  case Nil
  assume "exp_part s = Some (l, r)"
  with Nil show ?thesis by (simp add: exp_part_def)
next
  case (Cons e t)
  assume eq: "exp_part s = Some (l, r)"
  obtain sg r' where os: "opt_sign t = (sg, r')" by (cases "opt_sign t")
  have "length r' \<le> length t" using os by (rule opt_sign_rest)
  moreover have "length (dropWhile is_digit r') \<le> length r'" by (rule length_dropWhile_le)
  ultimately show ?thesis using eq Cons os
    by (auto simp: exp_part_def split: if_splits)
qed

lemma number_lexeme_rest: "number_lexeme s = Some (l, r) \<Longrightarrow> length r \<le> length s"
proof -
  assume eq: "number_lexeme s = Some (l, r)"
  obtain sg r0 where a: "opt_minus s = (sg, r0)" by (cases "opt_minus s")
  from eq a obtain ip r1 where b: "int_part r0 = Some (ip, r1)"
    by (auto simp: number_lexeme_def split: option.splits)
  from eq a b obtain fp r2 where c: "frac_part r1 = Some (fp, r2)"
    by (auto simp: number_lexeme_def split: option.splits)
  from eq a b c obtain ep where d: "exp_part r2 = Some (ep, r)"
    by (auto simp: number_lexeme_def split: option.splits)
  from opt_minus_rest[OF a] int_part_rest[OF b] frac_part_rest[OF c] exp_part_rest[OF d]
  show ?thesis by linarith
qed

lemma literal_rest: "literal w v s = Some (x, r) \<Longrightarrow> length r \<le> length s"
  by (auto simp: literal_def split: if_splits)

lemma map_option_pair_SomeE:
  assumes "map_option (\<lambda>(b, rest). (f b, rest)) m = Some (x, r)"
  obtains b where "m = Some (b, r)" and "x = f b"
  using assms by (cases m) auto

lemma parse_value_Suc_rest:
  assumes E: "\<And>cs vs r. parse_elements n cs = Some (vs, r) \<Longrightarrow> length r \<le> length cs"
      and M: "\<And>cs ms r. parse_members n cs = Some (ms, r) \<Longrightarrow> length r \<le> length cs"
      and eq: "parse_value (Suc n) s = Some (v, r)"
  shows "length r \<le> length s"
proof (cases "skip_ws s")
  case Nil
  with eq show ?thesis by simp
next
  case (Cons c cs)
  have cs: "length cs < length s" using Cons by (rule skip_ws_Cons_length)
  have ccs: "length (c # cs) \<le> length s" using cs by simp
  consider (arr) "c = CHR ''[''" | (obj) "c = CHR ''{''" "c \<noteq> CHR ''[''"
    | (str) "c = quote" "c \<noteq> CHR ''[''" "c \<noteq> CHR ''{''"
    | (other) "c \<noteq> quote" "c \<noteq> CHR ''[''" "c \<noteq> CHR ''{''" by blast
  then show ?thesis
  proof cases
    case arr
    show ?thesis
    proof (cases "skip_ws cs")
      case Nil
      with eq Cons arr show ?thesis by simp
    next
      case d: (Cons d t)
      have t: "length t < length cs" using d by (rule skip_ws_Cons_length)
      show ?thesis
      proof (cases "d = CHR '']''")
        case True
        with eq Cons arr d have "r = t" by simp
        with t cs show ?thesis by simp
      next
        case False
        with eq Cons arr d
        have "map_option (\<lambda>(vs, rest). (JArray vs, rest)) (parse_elements n cs) = Some (v, r)"
          by simp
        then obtain vs where "parse_elements n cs = Some (vs, r)"
          by (rule map_option_pair_SomeE)
        from E[OF this] cs show ?thesis by simp
      qed
    qed
  next
    case obj
    show ?thesis
    proof (cases "skip_ws cs")
      case Nil
      with eq Cons obj show ?thesis by simp
    next
      case d: (Cons d t)
      have t: "length t < length cs" using d by (rule skip_ws_Cons_length)
      show ?thesis
      proof (cases "d = CHR ''}''")
        case True
        with eq Cons obj d have "r = t" by simp
        with t cs show ?thesis by simp
      next
        case False
        with eq Cons obj d
        have "map_option (\<lambda>(ms, rest). (JObject ms, rest)) (parse_members n cs) = Some (v, r)"
          by simp
        then obtain ms where "parse_members n cs = Some (ms, r)"
          by (rule map_option_pair_SomeE)
        from M[OF this] cs show ?thesis by simp
      qed
    qed
  next
    case str
    with eq Cons
    have "map_option (\<lambda>(b, rest). (JString b, rest)) (string_body cs) = Some (v, r)"
      by simp
    then obtain b where "string_body cs = Some (b, r)"
      by (rule map_option_pair_SomeE)
    from string_body_rest[OF this] cs show ?thesis by simp
  next
    case other
    with eq Cons
    have "(\<exists>l. number_lexeme (c # cs) = Some (l, r))
          \<or> (\<exists>w x. literal w x (c # cs) = Some (v, r))"
      by (auto split: if_splits elim!: map_option_pair_SomeE)
    then have "length r \<le> length (c # cs)"
      using number_lexeme_rest literal_rest by blast
    with ccs show ?thesis by simp
  qed
qed

lemma parse_elements_Suc_rest:
  assumes V: "\<And>cs v r. parse_value n cs = Some (v, r) \<Longrightarrow> length r \<le> length cs"
      and E: "\<And>cs vs r. parse_elements n cs = Some (vs, r) \<Longrightarrow> length r \<le> length cs"
      and eq: "parse_elements (Suc n) s = Some (vs, r)"
  shows "length r \<le> length s"
proof (cases "parse_value n s")
  case None
  with eq show ?thesis by simp
next
  case (Some p)
  obtain v r0 where p: "p = (v, r0)" by (cases p)
  have r0: "length r0 \<le> length s" using V Some p by simp
  show ?thesis
  proof (cases "skip_ws r0")
    case Nil
    with eq Some p show ?thesis by simp
  next
    case (Cons c r1)
    have r1: "length r1 < length r0" using Cons by (rule skip_ws_Cons_length)
    show ?thesis
    proof (cases "c = CHR '',''")
      case True
      with eq Some p Cons
      have "map_option (\<lambda>(ws, rest). (v # ws, rest)) (parse_elements n r1) = Some (vs, r)"
        by simp
      then obtain ws where "parse_elements n r1 = Some (ws, r)"
        by (rule map_option_pair_SomeE)
      from E[OF this] r1 r0 show ?thesis by simp
    next
      case False
      with eq Some p Cons have "r = r1" by (simp split: if_splits)
      with r1 r0 show ?thesis by simp
    qed
  qed
qed

lemma parse_members_Suc_rest:
  assumes V: "\<And>cs v r. parse_value n cs = Some (v, r) \<Longrightarrow> length r \<le> length cs"
      and M: "\<And>cs ms r. parse_members n cs = Some (ms, r) \<Longrightarrow> length r \<le> length cs"
      and eq: "parse_members (Suc n) s = Some (ms, r)"
  shows "length r \<le> length s"
proof (cases "skip_ws s")
  case Nil
  with eq show ?thesis by simp
next
  case (Cons q cs)
  have cs: "length cs < length s" using Cons by (rule skip_ws_Cons_length)
  from eq Cons have q: "q = quote" by (simp split: if_splits)
  from eq Cons q obtain k r0 where k: "string_body cs = Some (k, r0)"
    by (cases "string_body cs") auto
  have r0: "length r0 \<le> length cs" using k by (rule string_body_rest)
  from eq Cons q k obtain c r1 where c: "skip_ws r0 = c # r1"
    by (cases "skip_ws r0") auto
  have r1: "length r1 < length r0" using c by (rule skip_ws_Cons_length)
  from eq Cons q k c have colon: "c = CHR '':''" by (simp split: if_splits)
  from eq Cons q k c colon obtain v r2 where v: "parse_value n r1 = Some (v, r2)"
    by (cases "parse_value n r1") auto
  have r2: "length r2 \<le> length r1" using v by (rule V)
  from eq Cons q k c colon v obtain d r3 where d: "skip_ws r2 = d # r3"
    by (cases "skip_ws r2") auto
  have r3: "length r3 < length r2" using d by (rule skip_ws_Cons_length)
  show ?thesis
  proof (cases "d = CHR '',''")
    case True
    with eq Cons q k c colon v d
    have "map_option (\<lambda>(ws, rest). ((k, v) # ws, rest)) (parse_members n r3) = Some (ms, r)"
      by simp
    then obtain ws where "parse_members n r3 = Some (ws, r)"
      by (rule map_option_pair_SomeE)
    from M[OF this] r3 r2 r1 r0 cs show ?thesis by simp
  next
    case False
    with eq Cons q k c colon v d have "r = r3" by (simp split: if_splits)
    with r3 r2 r1 r0 cs show ?thesis by simp
  qed
qed

lemma parse_rest:
  "(\<forall>s v r. parse_value n s = Some (v, r) \<longrightarrow> length r \<le> length s)
   \<and> (\<forall>s vs r. parse_elements n s = Some (vs, r) \<longrightarrow> length r \<le> length s)
   \<and> (\<forall>s ms r. parse_members n s = Some (ms, r) \<longrightarrow> length r \<le> length s)"
proof (induction n)
  case 0
  show ?case by simp
next
  case (Suc n)
  then have V: "\<And>cs v r. parse_value n cs = Some (v, r) \<Longrightarrow> length r \<le> length cs"
    and E: "\<And>cs vs r. parse_elements n cs = Some (vs, r) \<Longrightarrow> length r \<le> length cs"
    and M: "\<And>cs ms r. parse_members n cs = Some (ms, r) \<Longrightarrow> length r \<le> length cs"
    by blast+
  have 1: "length r \<le> length s" if "parse_value (Suc n) s = Some (v, r)" for s v r
    by (rule parse_value_Suc_rest[of n s v r], erule E, erule M, rule that)
  have 2: "length r \<le> length s" if "parse_elements (Suc n) s = Some (vs, r)" for s vs r
    by (rule parse_elements_Suc_rest[of n s vs r], erule V, erule E, rule that)
  have 3: "length r \<le> length s" if "parse_members (Suc n) s = Some (ms, r)" for s ms r
    by (rule parse_members_Suc_rest[of n s ms r], erule V, erule M, rule that)
  from 1 2 3 show ?case by blast
qed

lemma parse_value_rest: "parse_value n s = Some (v, r) \<Longrightarrow> length r \<le> length s"
  using parse_rest by blast

lemma parse_value_fuel_step:
  assumes E: "\<And>t. length t < length s \<Longrightarrow> parse_elements (Suc n) t = parse_elements n t"
      and M: "\<And>t. length t < length s \<Longrightarrow> parse_members (Suc n) t = parse_members n t"
  shows "parse_value (Suc (Suc n)) s = parse_value (Suc n) s"
proof (cases "skip_ws s")
  case Nil
  then show ?thesis by simp
next
  case (Cons c cs)
  have "length cs < length s" using Cons by (rule skip_ws_Cons_length)
  then have e: "parse_elements (Suc n) cs = parse_elements n cs"
    and m: "parse_members (Suc n) cs = parse_members n cs"
    using E M by blast+
  show ?thesis
    by (simp add: Cons e m del: parse_elements.simps parse_members.simps
          cong: list.case_cong if_cong)
qed

lemma parse_elements_fuel_step:
  assumes V: "parse_value (Suc n) s = parse_value n s"
      and E: "\<And>t. length t < length s \<Longrightarrow> parse_elements (Suc n) t = parse_elements n t"
  shows "parse_elements (Suc (Suc n)) s = parse_elements (Suc n) s"
proof (cases "parse_value n s")
  case None
  with V show ?thesis by (simp del: parse_value.simps)
next
  case (Some p)
  obtain v r where p: "p = (v, r)" by (cases p)
  have r: "length r \<le> length s" using Some p parse_value_rest by blast
  show ?thesis
  proof (cases "skip_ws r")
    case Nil
    with V Some p show ?thesis by (simp del: parse_value.simps)
  next
    case (Cons c r')
    have "length r' < length r" using Cons by (rule skip_ws_Cons_length)
    with r have "parse_elements (Suc n) r' = parse_elements n r'" using E by simp
    with V Some p Cons show ?thesis
      by (simp del: parse_value.simps parse_elements.simps
            add: parse_elements.simps(2)[of "Suc n" s] parse_elements.simps(2)[of n s])
  qed
qed

lemma parse_members_fuel_step:
  assumes V: "\<And>t. length t < length s \<Longrightarrow> parse_value (Suc n) t = parse_value n t"
      and M: "\<And>t. length t < length s \<Longrightarrow> parse_members (Suc n) t = parse_members n t"
  shows "parse_members (Suc (Suc n)) s = parse_members (Suc n) s"
proof -
  note unfold = parse_members.simps(2)[of "Suc n" s] parse_members.simps(2)[of n s]
  note [simp del] = parse_value.simps parse_members.simps
  show ?thesis
  proof (cases "skip_ws s")
    case Nil
    then show ?thesis by (simp add: unfold)
  next
    case (Cons q cs)
    have cs: "length cs < length s" using Cons by (rule skip_ws_Cons_length)
    show ?thesis
    proof (cases "string_body cs")
      case None
      with Cons show ?thesis by (simp add: unfold)
    next
      case (Some p)
      obtain k r0 where p: "p = (k, r0)" by (cases p)
      have r0: "length r0 \<le> length cs" using Some p string_body_rest by blast
      show ?thesis
      proof (cases "skip_ws r0")
        case Nil
        with Cons Some p show ?thesis by (simp add: unfold)
      next
        case c: (Cons c r1)
        have r1: "length r1 < length r0" using c by (rule skip_ws_Cons_length)
        with r0 cs have v: "parse_value (Suc n) r1 = parse_value n r1" using V by simp
        show ?thesis
        proof (cases "parse_value n r1")
          case None
          with Cons Some p c v show ?thesis by (simp add: unfold)
        next
          case v2: (Some p2)
          obtain x r2 where p2: "p2 = (x, r2)" by (cases p2)
          have r2: "length r2 \<le> length r1" using v2 p2 parse_value_rest by blast
          show ?thesis
          proof (cases "skip_ws r2")
            case Nil
            with Cons Some p c v v2 p2 show ?thesis by (simp add: unfold)
          next
            case d: (Cons d r3)
            have "length r3 < length r2" using d by (rule skip_ws_Cons_length)
            with r2 r1 r0 cs have "parse_members (Suc n) r3 = parse_members n r3"
              using M by simp
            with Cons Some p c v v2 p2 d show ?thesis by (simp add: unfold)
          qed
        qed
      qed
    qed
  qed
qed

lemma parse_fuel_Suc:
  "(\<forall>s. 2 * length s + 1 \<le> n \<longrightarrow> parse_value (Suc n) s = parse_value n s)
   \<and> (\<forall>s. 2 * length s + 2 \<le> n \<longrightarrow> parse_elements (Suc n) s = parse_elements n s)
   \<and> (\<forall>s. 2 * length s + 2 \<le> n \<longrightarrow> parse_members (Suc n) s = parse_members n s)"
proof (induction n)
  case 0
  show ?case by simp
next
  case (Suc n)
  then have V: "\<And>s. 2 * length s + 1 \<le> n \<Longrightarrow> parse_value (Suc n) s = parse_value n s"
    and E: "\<And>s. 2 * length s + 2 \<le> n \<Longrightarrow> parse_elements (Suc n) s = parse_elements n s"
    and M: "\<And>s. 2 * length s + 2 \<le> n \<Longrightarrow> parse_members (Suc n) s = parse_members n s"
    by blast+
  have 1: "parse_value (Suc (Suc n)) s = parse_value (Suc n) s"
    if "2 * length s + 1 \<le> Suc n" for s
  proof (rule parse_value_fuel_step)
    fix t :: string assume "length t < length s"
    with that have "2 * length t + 2 \<le> n" by simp
    then show "parse_elements (Suc n) t = parse_elements n t"
      and "parse_members (Suc n) t = parse_members n t" using E M by blast+
  qed
  have 2: "parse_elements (Suc (Suc n)) s = parse_elements (Suc n) s"
    if "2 * length s + 2 \<le> Suc n" for s
  proof (rule parse_elements_fuel_step)
    from that have "2 * length s + 1 \<le> n" by simp
    then show "parse_value (Suc n) s = parse_value n s" by (rule V)
  next
    fix t :: string assume "length t < length s"
    with that have "2 * length t + 2 \<le> n" by simp
    then show "parse_elements (Suc n) t = parse_elements n t" by (rule E)
  qed
  have 3: "parse_members (Suc (Suc n)) s = parse_members (Suc n) s"
    if "2 * length s + 2 \<le> Suc n" for s
  proof (rule parse_members_fuel_step)
    fix t :: string assume "length t < length s"
    with that have "2 * length t + 2 \<le> n" by simp
    then show "parse_value (Suc n) t = parse_value n t"
      and "parse_members (Suc n) t = parse_members n t" using V M by simp_all
  qed
  from 1 2 3 show ?case by blast
qed

lemma parse_value_fuel: "2 * length s + 1 \<le> n \<Longrightarrow> parse_value (n + k) s = parse_value n s"
proof (induction k)
  case 0
  show ?case by simp
next
  case (Suc k)
  then have "2 * length s + 1 \<le> n + k" by simp
  then have "parse_value (Suc (n + k)) s = parse_value (n + k) s"
    using parse_fuel_Suc by blast
  with Suc show ?case by simp
qed

lemma parse_value_fuel_enough:
  "2 * length s + 1 \<le> n \<Longrightarrow> parse_value n s = parse_value (2 * length s + 1) s"
  using parse_value_fuel[of s "2 * length s + 1" "n - (2 * length s + 1)"] by simp

lemma dropWhile_bracket_hd:
  "dropWhile (\<lambda>c. c \<noteq> CHR ''['') text = b # rest \<Longrightarrow> b = CHR ''[''"
proof -
  assume d: "dropWhile (\<lambda>c. c \<noteq> CHR ''['') text = b # rest"
  then have "dropWhile (\<lambda>c. c \<noteq> CHR ''['') text \<noteq> []" by simp
  then have "\<not> hd (dropWhile (\<lambda>c. c \<noteq> CHR ''['') text) \<noteq> CHR ''[''"
    by (rule hd_dropWhile)
  with d show ?thesis by simp
qed


lemma match_array_Some_bracket: "match_array text = Some m \<Longrightarrow> \<exists>m'. m = CHR ''['' # m'"
  by (auto simp: match_array_def split: list.splits if_splits dest: dropWhile_bracket_hd)

lemma skip_ws_bracket: "skip_ws (CHR ''['' # m) = CHR ''['' # m"
  by (simp add: skip_ws_def is_ws_def)

lemma parse_value_bracket:
  "parse_value n (CHR ''['' # m) = Some (v, r) \<Longrightarrow> \<exists>vs. v = JArray vs"
proof (cases n)
  case 0
  assume "parse_value n (CHR ''['' # m) = Some (v, r)"
  with 0 show ?thesis by simp
next
  case (Suc k)
  assume "parse_value n (CHR ''['' # m) = Some (v, r)"
  with Suc show ?thesis
    by (auto simp: skip_ws_bracket simp del: parse_elements.simps
          split: list.splits if_splits)
qed

lemma JSON_parse_bracket: "JSON_parse (CHR ''['' # m) = Some v \<Longrightarrow> \<exists>vs. v = JArray vs"
  unfolding JSON_parse_def
  by (auto simp del: parse_value.simps split: option.splits if_splits dest: parse_value_bracket)

section \<open>Startup\<close>

text \<open>
  C10. Once the component has mounted and before any user action, the collection holds
  exactly the three seeded entries (file welcome.js, file styles.css, folder assets), the
  active id is welcome.js, and the transcript holds one greeting from the model; a first
  chat message is therefore appended to a transcript of one message.
\<close>

theorem startup_workspace:
  "map (\<lambda>e. (id' e, name e, type e)) (entries startup) =
     [(''welcome.js'', ''welcome.js'', File), (''styles.css'', ''styles.css'', File),
      (''assets'', ''assets'', Folder)]
   \<and> activeId startup = Some ''welcome.js''
   \<and> chatHistory startup =
       [\<lparr>role = Model,
         content = ''Hey! I'm Vibe Bot. Ask me anything about your code or general questions.''\<rparr>]
   \<and> chatHistory (handleSendMessage_begin message startup) =
       [\<lparr>role = Model,
         content = ''Hey! I'm Vibe Bot. Ask me anything about your code or general questions.''\<rparr>,
        \<lparr>role = User, content = message\<rparr>]"
  by (simp add: startup_def on_mount_def App_init_def initialEntries_def
        handleSendMessage_begin_def)

section \<open>Editing the active entry\<close>

text \<open>
  C8, as stated, fails where the active id is the empty string: the handler tests the
  active id for truthiness, so an entry whose id is the empty string is never edited,
  although the active id is not null.
\<close>

theorem handleContentChange_empty_activeId:
  "activeId (App_init\<lparr>entries := [\<lparr>id' = '''', name = ''x'', VibeEntry.content = ''old'',
                                     language = '''', type = File\<rparr>],
                       activeId := Some ''''\<rparr>) \<noteq> None
   \<and> map VibeEntry.content
       (entries (handleContentChange ''new''
          (App_init\<lparr>entries := [\<lparr>id' = '''', name = ''x'', VibeEntry.content = ''old'',
                                  language = '''', type = File\<rparr>],
                    activeId := Some ''''\<rparr>))) = [''old'']"
  by (simp add: handleContentChange_def)

text \<open>
  C8, amended. \<open>handleContentChange\<close> changes nothing when the active id is null or
  the empty string. Otherwise it changes only the entry collection, keeps its length
  and order, replaces the content field (and no other field) of every entry whose id is
  the active id, and leaves every other entry as it was.
\<close>

theorem handleContentChange_frame:
  "(activeId s = None \<or> activeId s = Some '''' \<longrightarrow> handleContentChange newContent s = s)
   \<and> (activeId s = Some a \<and> a \<noteq> '''' \<longrightarrow>
        (handleContentChange newContent s)\<lparr>entries := entries s\<rparr> = s
        \<and> length (entries (handleContentChange newContent s)) = length (entries s)
        \<and> (\<forall>i < length (entries s).
              entries (handleContentChange newContent s) ! i =
                (if id' (entries s ! i) = a
                 then (entries s ! i)\<lparr>VibeEntry.content := newContent\<rparr>
                 else entries s ! i)))"
  by (auto simp add: handleContentChange_def)

theorem handleContentChange_frame_witness:
  "handleContentChange ''// edited'' (workspace initialEntries None) = workspace initialEntries None
   \<and> entries (handleContentChange ''// edited'' startup) ! 0 =
       (initialEntries ! 0)\<lparr>VibeEntry.content := ''// edited''\<rparr>
   \<and> entries (handleContentChange ''// edited'' startup) ! 1 = initialEntries ! 1
   \<and> entries (handleContentChange ''// edited'' startup) ! 2 = initialEntries ! 2
   \<and> length (entries (handleContentChange ''// edited'' startup)) = 3"
proof -
  have n: "activeId (workspace initialEntries None) = None"
    by (simp add: workspace_def)
  have a: "activeId startup = Some ''welcome.js'' \<and> ''welcome.js'' \<noteq> ''''"
    by (simp add: startup_def on_mount_def App_init_def)
  have e: "entries startup = initialEntries"
    by (simp add: startup_def on_mount_def App_init_def)
  have l: "length initialEntries = 3" "id' (initialEntries ! 0) = ''welcome.js''"
    "id' (initialEntries ! 1) \<noteq> ''welcome.js''" "id' (initialEntries ! 2) \<noteq> ''welcome.js''"
    by (simp_all add: initialEntries_def)
  from handleContentChange_frame[of "workspace initialEntries None" "''// edited''" "''''"] n
  have 1: "handleContentChange ''// edited'' (workspace initialEntries None)
            = workspace initialEntries None" by simp
  from handleContentChange_frame[of startup "''// edited''" "''welcome.js''"] a
  have 2: "length (entries (handleContentChange ''// edited'' startup)) = length (entries startup)"
    and 3: "\<forall>i < length (entries startup).
              entries (handleContentChange ''// edited'' startup) ! i =
                (if id' (entries startup ! i) = ''welcome.js''
                 then (entries startup ! i)\<lparr>VibeEntry.content := ''// edited''\<rparr>
                 else entries startup ! i)"
    by simp_all
  from 3 have "entries (handleContentChange ''// edited'' startup) ! 0 =
       (initialEntries ! 0)\<lparr>VibeEntry.content := ''// edited''\<rparr>"
     and "entries (handleContentChange ''// edited'' startup) ! 1 = initialEntries ! 1"
     and "entries (handleContentChange ''// edited'' startup) ! 2 = initialEntries ! 2"
    using l by (simp_all add: e)
  with 1 2 l e show ?thesis by simp
qed

section \<open>Creating files and folders\<close>

text \<open>
  C2, as stated, fails on the language field: a name without a dot gets the whole name
  as its language (not "text"), and a name ending in a dot gets "text" (not the empty
  substring after the dot).
\<close>

theorem handleNewFile_language_counterexample:
  "CHR ''.'' \<notin> set ''Makefile''
   \<and> map language (entries (handleNewFile (Some ''Makefile'') (workspace [] None))) = [''Makefile'']
   \<and> after_last CHR ''.'' ''a.'' = ''''
   \<and> map language (entries (handleNewFile (Some ''a.'') (workspace [] None))) = [''text'']"
  by (simp add: workspace_def App_init_def handleNewFile_def or_else_def pop_def after_last_def)

text \<open>
  C2, amended. \<open>handleNewFile\<close> changes nothing when the name is cancelled or empty;
  when an entry with that exact name exists it leaves the collection and the active id
  unchanged and shows an alert; otherwise it appends exactly one file entry whose id and
  name are the given name and makes it active, and when the name contains a dot the
  entry's language is the substring after the last dot, or "text" when that substring
  is empty.
\<close>

theorem handleNewFile_contract:
  "(fileName = None \<or> fileName = Some '''' \<longrightarrow> handleNewFile fileName s = s)
   \<and> (fileName = Some fn \<and> fn \<noteq> '''' \<and> fn \<in> name ` set (entries s) \<longrightarrow>
        entries (handleNewFile fileName s) = entries s
        \<and> activeId (handleNewFile fileName s) = activeId s
        \<and> alerts (handleNewFile fileName s) =
            alerts s @ [''A file with that name already exists.''])
   \<and> (fileName = Some fn \<and> fn \<noteq> '''' \<and> fn \<notin> name ` set (entries s) \<longrightarrow>
        (\<exists>e. entries (handleNewFile fileName s) = entries s @ [e]
             \<and> id' e = fn \<and> name e = fn \<and> type e = File
             \<and> VibeEntry.content e = ''// New file: '' @ fn
             \<and> activeId (handleNewFile fileName s) = Some fn
             \<and> alerts (handleNewFile fileName s) = alerts s
             \<and> (CHR ''.'' \<in> set fn \<longrightarrow>
                  language e = (if after_last CHR ''.'' fn = '''' then ''text''
                                else after_last CHR ''.'' fn))))"
  by (auto simp: handleNewFile_def list_ex_name pop_js_split or_else_def Let_def)

theorem handleNewFile_contract_witness:
  "entries (handleNewFile (Some ''a.js'') (workspace [] None)) =
     [\<lparr>id' = ''a.js'', name = ''a.js'', VibeEntry.content = ''// New file: a.js'',
       language = ''js'', type = File\<rparr>]
   \<and> activeId (handleNewFile (Some ''a.js'') (workspace [] None)) = Some ''a.js''
   \<and> entries (handleNewFile (Some ''a.js'') (handleNewFile (Some ''a.js'') (workspace [] None)))
       = entries (handleNewFile (Some ''a.js'') (workspace [] None))
   \<and> alerts (handleNewFile (Some ''a.js'') (handleNewFile (Some ''a.js'') (workspace [] None)))
       = [''A file with that name already exists.'']
   \<and> handleNewFile None (workspace [] None) = workspace [] None"
  using handleNewFile_contract[of "Some ''a.js''" "workspace [] None" "''a.js''"]
        handleNewFile_contract[of "Some ''a.js''" "handleNewFile (Some ''a.js'') (workspace [] None)" "''a.js''"]
        handleNewFile_contract[of "None" "workspace [] None" "''a.js''"]
  by (simp add: workspace_def App_init_def handleNewFile_def or_else_def pop_def)

lemma handleNewFolder_ids_distinct:
  "distinct (map id' (entries s)) \<Longrightarrow> distinct (map id' (entries (handleNewFolder folderPath s)))"
  by (auto simp: handleNewFolder_def Let_def list_ex_iff split: option.splits)

lemma handleNewFile_names_distinct:
  "distinct (map name (entries s)) \<Longrightarrow> distinct (map name (entries (handleNewFile fileName s)))"
  by (auto simp: handleNewFile_def Let_def list_ex_iff split: option.splits)

text \<open>
  C1. The claim is that no sequence of \<open>handleNewFile\<close> and \<open>handleNewFolder\<close>
  calls ever yields two entries with one id. \<open>handleNewFile\<close> compares the new name
  with the names of the entries, while the entry it appends takes the name as its id:
  from the empty collection, creating the folder src/a and then the file src/a gives two
  entries with the id src/a, and no alert. (\<open>handleNewFolder\<close> compares ids and keeps
  them distinct; \<open>handleNewFile\<close> keeps the names distinct: the two lemmas above.)
\<close>

theorem handleNewFile_duplicate_id:
  "map id' (entries (handleNewFolder (Some ''src/a'') (workspace [] None))) = [''src/a'']
   \<and> map id' (entries (handleNewFile (Some ''src/a'')
                 (handleNewFolder (Some ''src/a'') (workspace [] None)))) = [''src/a'', ''src/a'']
   \<and> alerts (handleNewFile (Some ''src/a'')
                 (handleNewFolder (Some ''src/a'') (workspace [] None))) = []"
  by (simp add: workspace_def App_init_def handleNewFile_def handleNewFolder_def or_else_def pop_def)

section \<open>Chat\<close>

text \<open>
  C6. For every message and whatever the gateway does, \<open>handleSendMessage\<close> resolves
  (no exception reaches the caller), the transcript has grown by exactly two messages,
  the user's message and then either the model's reply or the fixed fallback message,
  and the busy flag is false. Part by part: the part before the \<open>await\<close> appends the
  user's message, and the part after it appends one message to the transcript as it is
  then and clears the busy flag.
\<close>

theorem handleSendMessage_two_messages:
  "(\<exists>s'. handleSendMessage gw message s = Resolved s'
        \<and> isAiLoading s' = False
        \<and> chatHistory s' =
            chatHistory s @
              [\<lparr>role = User, content = message\<rparr>,
               \<lparr>role = Model,
                content = (case await_runChat gw (chat s) message of
                             Inr (chatInstance, response) \<Rightarrow> response
                           | Inl err \<Rightarrow> ''Sorry, I ran into an issue. Please check the console for details.'')\<rparr>])
   \<and> chatHistory (handleSendMessage_begin message s) =
        chatHistory s @ [\<lparr>role = User, content = message\<rparr>]
   \<and> chatHistory (handleSendMessage_settle c (Inr (chatInstance, response)) s) =
        chatHistory s @ [\<lparr>role = Model, content = response\<rparr>]
   \<and> chatHistory (handleSendMessage_settle c (Inl err) s) =
        chatHistory s @
          [\<lparr>role = Model,
            content = ''Sorry, I ran into an issue. Please check the console for details.''\<rparr>]
   \<and> \<not> isAiLoading (handleSendMessage_settle c settled s)"
  by (simp add: handleSendMessage_def handleSendMessage_settle_def handleSendMessage_begin_def
        Let_def split: sum.splits prod.splits)

section \<open>AI actions and scaffolding\<close>

text \<open>
  C7. \<open>handleAiAction\<close> and \<open>handleScaffold\<close> always resolve with the busy flag
  cleared; when the gateway call fails, the entry collection and the active id are what
  they were before the call. The same holds part by part: the part before the
  \<open>await\<close> leaves both as they are, the part after a failed call leaves both as it
  finds them, and the part after any call clears the busy flag.
\<close>

theorem gateway_failure_keeps_workspace:
  "(\<exists>s'. handleAiAction gw mode code now s = Resolved s'
         \<and> \<not> isAiLoading s'
         \<and> (isl (ai_request gw mode code) \<longrightarrow>
              entries s' = entries s \<and> activeId s' = activeId s))
   \<and> (\<exists>s'. handleScaffold gw prompt s = Resolved s'
         \<and> \<not> isAiLoading s'
         \<and> (isl (await_scaffoldProject gw prompt) \<longrightarrow>
              entries s' = entries s \<and> activeId s' = activeId s))
   \<and> entries (handleAiAction_begin s) = entries s
   \<and> activeId (handleAiAction_begin s) = activeId s
   \<and> entries (handleAiAction_settle a mode (Inl err) now s) = entries s
   \<and> activeId (handleAiAction_settle a mode (Inl err) now s) = activeId s
   \<and> \<not> isAiLoading (handleAiAction_settle a mode settled now s)
   \<and> entries (handleScaffold_begin s) = entries s
   \<and> activeId (handleScaffold_begin s) = activeId s
   \<and> entries (handleScaffold_settle (Inl err) s) = entries s
   \<and> activeId (handleScaffold_settle (Inl err) s) = activeId s
   \<and> \<not> isAiLoading (handleScaffold_settle settled' s)"
  by (auto simp: handleAiAction_def handleAiAction_settle_def handleAiAction_begin_def
        handleScaffold_def handleScaffold_settle_def handleScaffold_begin_def
        Let_def isl_def split: sum.splits list.splits)

theorem gateway_failure_keeps_workspace_witness:
  "isl (ai_request (Gateway_down (ServiceFailure ''offline'')) ANALYZE ''x'')
   \<and> isl (await_scaffoldProject (Gateway_down (ServiceFailure ''offline'')) ''a todo app'')
   \<and> (\<exists>s'. handleAiAction (Gateway_down (ServiceFailure ''offline'')) ANALYZE ''x'' 1700000000000 startup
               = Resolved s'
          \<and> \<not> isAiLoading s' \<and> entries s' = entries startup \<and> activeId s' = activeId startup)
   \<and> (\<exists>s'. handleScaffold (Gateway_down (ServiceFailure ''offline'')) ''a todo app'' startup
               = Resolved s'
          \<and> \<not> isAiLoading s' \<and> entries s' = entries startup \<and> activeId s' = activeId startup)"
proof -
  have a: "isl (ai_request (Gateway_down (ServiceFailure ''offline'')) ANALYZE ''x'')"
    by (simp add: ai_request_def Gateway_down_def)
  have b: "isl (await_scaffoldProject (Gateway_down (ServiceFailure ''offline'')) ''a todo app'')"
    by (simp add: Gateway_down_def)
  from gateway_failure_keeps_workspace[of "Gateway_down (ServiceFailure ''offline'')" ANALYZE
        "''x''" 1700000000000 startup "''a todo app''"] a b
  show ?thesis by blast
qed

text \<open>
  C3, as stated, fails on uniqueness: the id of the new entry is built from the clock
  reading alone, so two successful actions within one millisecond append two entries
  with the same id.
\<close>

theorem handleAiAction_same_tick_counterexample:
  "ai_request (Gateway_ok ''fine'') ANALYZE ''x'' = Inr ''fine''
   \<and> distinct (map id' (entries startup))
   \<and> map id' (entries (resolved (handleAiAction (Gateway_ok ''fine'') ANALYZE ''x'' 1700000000000
            (resolved (handleAiAction (Gateway_ok ''fine'') ANALYZE ''x'' 1700000000000 startup)))))
       = [''welcome.js'', ''styles.css'', ''assets'',
          ''ai-response-1700000000000.md'', ''ai-response-1700000000000.md'']"
proof -
  have "digits 1700000000000 = ''1700000000000''"
    by (simp add: digits.simps digit_char_def)
  then have i: "ai_response_id 1700000000000 = ''ai-response-1700000000000.md''"
    by (simp add: ai_response_id_def String_of_int_def)
  show ?thesis
    by (simp add: i handleAiAction_def handleAiAction_settle_def handleAiAction_begin_def
          ai_request_def Gateway_ok_def startup_def on_mount_def App_init_def initialEntries_def)
qed

text \<open>
  C3, amended. When the gateway call succeeds, \<open>handleAiAction\<close> appends exactly one
  markdown file entry and makes it active; its id is ai-response-, the clock reading in
  decimal, and .md; its content is the result under a heading that names the id that
  was active when the handler was called. The ids of the collection stay distinct
  exactly when they were distinct and none of them was already that id; ids built at
  different clock readings differ. Part by part: the part before the \<open>await\<close> only
  sets the busy flag; the part after a successful call, on the state as it is then
  (whatever was selected or created meanwhile), appends that one entry to the
  collection it finds, names in the heading the id the handler captured at the call
  and not the one active at settling, makes the new entry active, clears the busy flag
  and changes nothing else.
\<close>

theorem handleAiAction_success:
  "ai_request gw mode code = Inr result \<Longrightarrow>
     (\<exists>s'. handleAiAction gw mode code now s = Resolved s'
        \<and> entries s' = entries s @
              [\<lparr> id' = ai_response_id now,
                 name = AIMode_str mode @ ''-response.md'',
                 VibeEntry.content =
                   ''## AI '' @ AIMode_str mode @ '' Result for '' @ String_of_nullable (activeId s)
                     @ ''\<newline>\<newline>---\<newline>\<newline>'' @ result,
                 language = ''markdown'',
                 type = File \<rparr>]
        \<and> activeId s' = Some (ai_response_id now)
        \<and> (distinct (map id' (entries s')) \<longleftrightarrow>
               distinct (map id' (entries s)) \<and> ai_response_id now \<notin> id' ` set (entries s))
        \<and> (\<forall>now'. now' \<noteq> now \<longrightarrow> ai_response_id now' \<noteq> ai_response_id now))
     \<and> handleAiAction gw mode code now s =
         Resolved (handleAiAction_settle (activeId s) mode (Inr result) now (handleAiAction_begin s))
     \<and> handleAiAction_begin s = s\<lparr>isAiLoading := True\<rparr>
     \<and> handleAiAction_settle activeId0 mode (Inr result) now t =
         t\<lparr>entries := entries t @
                [\<lparr> id' = ai_response_id now,
                   name = AIMode_str mode @ ''-response.md'',
                   VibeEntry.content =
                     ''## AI '' @ AIMode_str mode @ '' Result for '' @ String_of_nullable activeId0
                       @ ''\<newline>\<newline>---\<newline>\<newline>'' @ result,
                   language = ''markdown'',
                   type = File \<rparr>],
           activeId := Some (ai_response_id now),
           isAiLoading := False\<rparr>
     \<and> (distinct (map id' (entries (handleAiAction_settle activeId0 mode (Inr result) now t))) \<longleftrightarrow>
            distinct (map id' (entries t)) \<and> ai_response_id now \<notin> id' ` set (entries t))"
  using ai_response_id_inj
  by (auto simp: handleAiAction_def handleAiAction_settle_def handleAiAction_begin_def Let_def)

theorem handleAiAction_success_witness:
  "ai_request (Gateway_ok ''fine'') ANALYZE ''x'' = Inr ''fine''
   \<and> activeId startup = Some ''welcome.js''
   \<and> activeId (handleSelect ''styles.css'' (handleAiAction_begin startup)) = Some ''styles.css''
   \<and> map id' (entries (handleAiAction_settle (activeId startup) ANALYZE (Inr ''fine'') 1700000000000
                          (handleSelect ''styles.css'' (handleAiAction_begin startup))))
       = [''welcome.js'', ''styles.css'', ''assets'', ''ai-response-1700000000000.md'']
   \<and> last (entries (handleAiAction_settle (activeId startup) ANALYZE (Inr ''fine'') 1700000000000
                       (handleSelect ''styles.css'' (handleAiAction_begin startup))))
       = \<lparr> id' = ''ai-response-1700000000000.md'',
           name = ''Analyze-response.md'',
           VibeEntry.content = ''## AI Analyze Result for welcome.js\<newline>\<newline>---\<newline>\<newline>fine'',
           language = ''markdown'',
           type = File \<rparr>
   \<and> activeId (handleAiAction_settle (activeId startup) ANALYZE (Inr ''fine'') 1700000000000
                  (handleSelect ''styles.css'' (handleAiAction_begin startup)))
       = Some ''ai-response-1700000000000.md''
   \<and> distinct (map id' (entries (handleAiAction_settle (activeId startup) ANALYZE (Inr ''fine'')
                    1700000000000 (handleSelect ''styles.css'' (handleAiAction_begin startup)))))
   \<and> (\<exists>s'. handleAiAction (Gateway_ok ''fine'') ANALYZE ''x'' 1700000000000 startup = Resolved s'
          \<and> map id' (entries s')
              = [''welcome.js'', ''styles.css'', ''assets'', ''ai-response-1700000000000.md'']
          \<and> VibeEntry.content (last (entries s'))
              = ''## AI Analyze Result for welcome.js\<newline>\<newline>---\<newline>\<newline>fine''
          \<and> activeId s' = Some ''ai-response-1700000000000.md''
          \<and> distinct (map id' (entries s')))"
proof -
  have "digits 1700000000000 = ''1700000000000''"
    by (simp add: digits.simps digit_char_def)
  then have i: "ai_response_id 1700000000000 = ''ai-response-1700000000000.md''"
    by (simp add: ai_response_id_def String_of_int_def)
  have r: "ai_request (Gateway_ok ''fine'') ANALYZE ''x'' = Inr ''fine''"
    by (simp add: ai_request_def Gateway_ok_def)
  have a: "activeId startup = Some ''welcome.js''"
    and e: "map id' (entries startup) = [''welcome.js'', ''styles.css'', ''assets'']"
    by (simp_all add: startup_def on_mount_def App_init_def initialEntries_def)
  have t: "activeId (handleSelect ''styles.css'' (handleAiAction_begin startup)) = Some ''styles.css''"
    and te: "entries (handleSelect ''styles.css'' (handleAiAction_begin startup)) = entries startup"
    by (simp_all add: handleSelect_def handleAiAction_begin_def)
  note th = handleAiAction_success[OF r, of 1700000000000 startup "activeId startup"
      "handleSelect ''styles.css'' (handleAiAction_begin startup)"]
  from th have settle:
    "handleAiAction_settle (Some ''welcome.js'') ANALYZE (Inr ''fine'') 1700000000000
        (handleSelect ''styles.css'' (handleAiAction_begin startup)) =
     (handleSelect ''styles.css'' (handleAiAction_begin startup))
       \<lparr>entries := entries (handleSelect ''styles.css'' (handleAiAction_begin startup)) @
                [\<lparr> id' = ai_response_id 1700000000000,
                   name = AIMode_str ANALYZE @ ''-response.md'',
                   VibeEntry.content =
                     ''## AI '' @ AIMode_str ANALYZE @ '' Result for ''
                       @ String_of_nullable (Some ''welcome.js'')
                       @ ''\<newline>\<newline>---\<newline>\<newline>'' @ ''fine'',
                   language = ''markdown'',
                   type = File \<rparr>],
         activeId := Some (ai_response_id 1700000000000),
         isAiLoading := False\<rparr>"
    unfolding a by blast
  from th obtain s' where
    s': "handleAiAction (Gateway_ok ''fine'') ANALYZE ''x'' 1700000000000 startup = Resolved s'"
    and es: "entries s' = entries startup @
              [\<lparr> id' = ai_response_id 1700000000000,
                 name = AIMode_str ANALYZE @ ''-response.md'',
                 VibeEntry.content =
                   ''## AI '' @ AIMode_str ANALYZE @ '' Result for ''
                     @ String_of_nullable (activeId startup)
                     @ ''\<newline>\<newline>---\<newline>\<newline>'' @ ''fine'',
                 language = ''markdown'',
                 type = File \<rparr>]"
    and as: "activeId s' = Some (ai_response_id 1700000000000)"
    by blast
  have 1: "\<exists>s'. handleAiAction (Gateway_ok ''fine'') ANALYZE ''x'' 1700000000000 startup = Resolved s'
          \<and> map id' (entries s')
              = [''welcome.js'', ''styles.css'', ''assets'', ''ai-response-1700000000000.md'']
          \<and> VibeEntry.content (last (entries s'))
              = ''## AI Analyze Result for welcome.js\<newline>\<newline>---\<newline>\<newline>fine''
          \<and> activeId s' = Some ''ai-response-1700000000000.md''
          \<and> distinct (map id' (entries s'))"
    using s' es as by (simp add: i a e)
  show ?thesis
    using 1 by (simp add: r a t settle te e i)
qed

section \<open>Module initialisation\<close>

text \<open>
  C9. Importing the service module without the \<open>API_KEY\<close> variable throws at once,
  before any of its functions can be called; with a credential (a non-empty value) the
  module initialises and holds a client built with it.
\<close>

theorem geminiService_init_fail_fast:
  "geminiService_init None = Inl (Error ''API_KEY environment variable not set'')
   \<and> (k \<noteq> '''' \<longrightarrow> geminiService_init (Some k) = Inr \<lparr>apiKey = k\<rparr>)"
  by (simp add: geminiService_init_def)

theorem geminiService_init_fail_fast_witness:
  "geminiService_init (Some ''secret'') = Inr \<lparr>apiKey = ''secret''\<rparr>"
  using geminiService_init_fail_fast[of "''secret''"] by simp

section \<open>Scaffold responses\<close>





lemma unvalidated_response_parse:
  "parse_response unvalidated_response =
     Inr (JArray [JNumber ''1'', JString ''two'', JNull, JObject [(''id'', JNumber ''7'')]])"
  by code_simp

lemma unvalidated_response_entries:
  "schema_entries (JArray [JNumber ''1'', JString ''two'', JNull, JObject [(''id'', JNumber ''7'')]])
     = None"
  by code_simp

text \<open>
  C4, as stated, fails: the response [1, "two", null, {"id": 7}] is returned as it
  parses, although none of its elements is an entry.
\<close>

theorem scaffoldProject_no_validation_counterexample:
  "scaffoldProject (replies unvalidated_response) ''a todo app'' =
     Inr (JArray [JNumber ''1'', JString ''two'', JNull, JObject [(''id'', JNumber ''7'')]])
   \<and> schema_entries
        (JArray [JNumber ''1'', JString ''two'', JNull, JObject [(''id'', JNumber ''7'')]]) = None"
  by (simp add: scaffoldProject_def replies_def unvalidated_response_parse
        unvalidated_response_entries)

text \<open>
  C4, amended. \<open>scaffoldProject\<close> does not check the parsed response against the entry
  schema. When the request succeeds, it fails with its parse error if the response has
  no bracketed substring or that substring is not JSON; otherwise it returns the parsed
  value as it is, which is an array, whatever its elements are.
\<close>

theorem scaffoldProject_returns_parsed_array:
  "generateContent prompt = Inr response \<Longrightarrow>
     (case match_array response of
        None \<Rightarrow>
          scaffoldProject generateContent prompt =
            Inl (Error ''Failed to generate project structure. Please try again.'')
      | Some jsonMatch \<Rightarrow>
          (case JSON_parse jsonMatch of
             None \<Rightarrow>
               scaffoldProject generateContent prompt =
                 Inl (Error ''Failed to generate project structure. Please try again.'')
           | Some v \<Rightarrow>
               scaffoldProject generateContent prompt = Inr v \<and> (\<exists>vs. v = JArray vs)))"
  by (auto simp: scaffoldProject_def parse_response_def split: option.splits
        dest!: match_array_Some_bracket JSON_parse_bracket)

theorem scaffoldProject_returns_parsed_array_witness:
  "match_array unvalidated_response = Some unvalidated_response
   \<and> JSON_parse unvalidated_response =
       Some (JArray [JNumber ''1'', JString ''two'', JNull, JObject [(''id'', JNumber ''7'')]])
   \<and> scaffoldProject (replies unvalidated_response) ''a todo app'' =
       Inr (JArray [JNumber ''1'', JString ''two'', JNull, JObject [(''id'', JNumber ''7'')]])"
proof -
  have m: "match_array unvalidated_response = Some unvalidated_response" by code_simp
  have p: "JSON_parse unvalidated_response =
       Some (JArray [JNumber ''1'', JString ''two'', JNull, JObject [(''id'', JNumber ''7'')]])"
    by code_simp
  have r: "replies unvalidated_response ''a todo app'' = Inr unvalidated_response"
    by (simp add: replies_def)
  from scaffoldProject_returns_parsed_array[of "replies unvalidated_response" "''a todo app''"
      unvalidated_response] r m p
  show ?thesis by simp
qed

end
